theory Spec2Isabelle
  imports Main "HOL-Library.Monad_Syntax" "HOL-Library.Sublist" "HOL-Library.AList"
begin

section \<open>Strings\<close>

text \<open>
  A string is a list of code units; the model keeps the code units below 256, which is
  what \<^typ>\<open>char\<close> holds. Among them \<open>\s\<close> and \<open>trim\<close> see tab, line feed,
  vertical tab, form feed, carriage return, space and the no-break space.
\<close>

definition is_space :: "char \<Rightarrow> bool" where
  "is_space c = (c \<in> set [CHR 0x09, CHR 0x0A, CHR 0x0B, CHR 0x0C, CHR 0x0D, CHR 0x20, CHR 0xA0])"

definition is_digit :: "char \<Rightarrow> bool" where
  "is_digit c = (c \<in> set ''0123456789'')"

definition trim :: "string \<Rightarrow> string" where
  "trim s = rev (dropWhile is_space (rev (dropWhile is_space s)))"

text \<open>\<open>s.indexOf(c)\<close> and \<open>s.lastIndexOf(c)\<close> for a one-character \<open>c\<close>: \<open>-1\<close> when absent.\<close>

fun indexOf :: "string \<Rightarrow> char \<Rightarrow> int" where
  "indexOf [] c = -1"
| "indexOf (x # xs) c =
     (if x = c then 0 else (let i = indexOf xs c in if i = -1 then -1 else i + 1))"

fun lastIndexOf :: "string \<Rightarrow> char \<Rightarrow> int" where
  "lastIndexOf [] c = -1"
| "lastIndexOf (x # xs) c =
     (let i = lastIndexOf xs c in if i \<noteq> -1 then i + 1 else if x = c then 0 else -1)"

text \<open>
  \<open>s.substring(a, b)\<close>: both indices are clamped to \<open>0 .. length s\<close> and swapped when
  \<open>a > b\<close>; \<open>s.substring(a)\<close> runs to the end.
\<close>

definition substring :: "string \<Rightarrow> int \<Rightarrow> int \<Rightarrow> string" where
  "substring s a b =
     (let n = int (length s);
          a' = min (max a 0) n;
          b' = min (max b 0) n;
          from = min a' b';
          to = max a' b'
      in take (nat (to - from)) (drop (nat from) s))"

definition substring_from :: "string \<Rightarrow> int \<Rightarrow> string" where
  "substring_from s a = substring s a (int (length s))"

section \<open>Regular expressions\<close>

text \<open>
  The patterns of the source are terms of \<open>re\<close>. \<open>ms r s\<close> lists the rests of \<open>s\<close>
  that matching \<open>r\<close> at the start of \<open>s\<close> can leave, in the order in which a backtracking
  matcher tries them: a greedy star takes another round before it stops, a lazy star stops
  before it takes another round, an alternative tries its left side first. A round of a
  star that consumes nothing is dropped, as the language does.
\<close>

datatype re =
    Eps
  | Sym "char \<Rightarrow> bool"
  | Seq re re
  | Alt re re
  | Star re
  | Lazy re
  | Eol

fun ms :: "re \<Rightarrow> string \<Rightarrow> string list" where
  "ms Eps s = [s]"
| "ms (Sym p) s = (case s of [] \<Rightarrow> [] | c # cs \<Rightarrow> if p c then [cs] else [])"
| "ms (Seq a b) s = concat (map (ms b) (ms a s))"
| "ms (Alt a b) s = ms a s @ ms b s"
| "ms (Star a) s =
     concat (map (\<lambda>s'. if length s' < length s then ms (Star a) s' else []) (ms a s)) @ [s]"
| "ms (Lazy a) s =
     s # concat (map (\<lambda>s'. if length s' < length s then ms (Lazy a) s' else []) (ms a s))"
| "ms Eol s = (if s = [] then [s] else [])"

definition chr :: "char \<Rightarrow> re" where
  "chr c = Sym (\<lambda>x. x = c)"

definition notc :: "string \<Rightarrow> re" where
  "notc cs = Sym (\<lambda>x. x \<notin> set cs)"

definition anyc :: re where
  "anyc = Sym (\<lambda>x. True)"

text \<open>\<open>.\<close> without the \<open>s\<close> flag stops at a line terminator.\<close>

definition dot :: re where
  "dot = Sym (\<lambda>x. x \<notin> set [CHR 0x0A, CHR 0x0D])"

definition space :: re where
  "space = Sym is_space"

definition digit :: re where
  "digit = Sym is_digit"

definition plus :: "re \<Rightarrow> re" where
  "plus r = Seq r (Star r)"

definition opt :: "re \<Rightarrow> re" where
  "opt r = Alt r Eps"

fun seqs :: "re list \<Rightarrow> re" where
  "seqs [] = Eps"
| "seqs [r] = r"
| "seqs (r # rs) = Seq r (seqs rs)"

fun alts :: "re list \<Rightarrow> re" where
  "alts [] = Sym (\<lambda>x. False)"
| "alts [r] = r"
| "alts (r # rs) = Alt r (alts rs)"

definition str :: "string \<Rightarrow> re" where
  "str cs = seqs (map chr cs)"

fun first_some :: "('a \<Rightarrow> 'b option) \<Rightarrow> 'a list \<Rightarrow> 'b option" where
  "first_some f [] = None"
| "first_some f (x # xs) = (case f x of Some y \<Rightarrow> Some y | None \<Rightarrow> first_some f xs)"

text \<open>
  A pattern without a group, at the start of \<open>s\<close> and then anywhere in \<open>s\<close> (the leftmost
  start wins): \<open>search\<close> returns the text before the match and the text after it.
\<close>

fun search :: "re \<Rightarrow> string \<Rightarrow> (string \<times> string) option" where
  "search r [] = (case ms r [] of [] \<Rightarrow> None | rest # _ \<Rightarrow> Some ([], rest))"
| "search r (c # cs) =
     (case ms r (c # cs) of
        rest # _ \<Rightarrow> Some ([], rest)
      | [] \<Rightarrow> map_option (\<lambda>(pre, rest). (c # pre, rest)) (search r cs))"

text \<open>\<open>s.replace(r, rep)\<close> for \<open>r\<close> without the \<open>g\<close> flag: the first match only.\<close>

definition replace_first :: "re \<Rightarrow> string \<Rightarrow> string \<Rightarrow> string" where
  "replace_first r rep s =
     (case search r s of None \<Rightarrow> s | Some (pre, rest) \<Rightarrow> pre @ rep @ rest)"

text \<open>
  With the \<open>g\<close> flag, \<open>s.match(r)\<close> lists the matched texts from left to right, each
  search starting where the last match ended, one character further after an empty match.
  (\<open>null\<close> for no match is the empty list here: the source takes \<open>|| []\<close> or tests it.)
\<close>

function match_all :: "re \<Rightarrow> string \<Rightarrow> string list" where
  "match_all r s =
     (case search r s of
        None \<Rightarrow> []
      | Some (pre, rest) \<Rightarrow>
          (let at = drop (length pre) s;
               m = take (length at - length rest) at
           in m # (if m = []
                   then (case at of [] \<Rightarrow> [] | _ # t \<Rightarrow> match_all r t)
                   else match_all r rest)))"
  by pat_completeness auto
termination
proof (relation "measure (\<lambda>(r, s). length s)")
  show "wf (measure (\<lambda>(r, s). length s))" by simp
next
  fix r :: re and s x2 pre rest at m a t
  assume "at = drop (length pre) s" and "at = a # (t :: string)"
  then have "Suc (length t) = length s - length pre"
    by (metis length_Cons length_drop)
  then show "((r, t), (r, s)) \<in> measure (\<lambda>(r, s). length s)" by simp
next
  fix r :: re and s pre rest at :: string and m :: string
  assume "at = drop (length pre) s" and "m = take (length at - length rest) at" and "m \<noteq> []"
  then have "length rest < length s" by auto
  then show "((r, rest), (r, s)) \<in> measure (\<lambda>(r, s). length s)" by simp
qed

text \<open>
  \<open>s.replace(r, rep)\<close> with the \<open>g\<close> flag: every match is replaced, and the character
  after an empty match is kept.
\<close>

function replace_all :: "re \<Rightarrow> string \<Rightarrow> string \<Rightarrow> string" where
  "replace_all r rep s =
     (case search r s of
        None \<Rightarrow> s
      | Some (pre, rest) \<Rightarrow>
          (let at = drop (length pre) s
           in if length rest < length at then pre @ rep @ replace_all r rep rest
              else (case at of
                      [] \<Rightarrow> pre @ rep
                    | c # t \<Rightarrow> pre @ rep @ [c] @ replace_all r rep t)))"
  by pat_completeness auto
termination
proof (relation "measure (\<lambda>(r, rep, s). length s)")
  show "wf (measure (\<lambda>(r, rep, s). length s))" by simp
next
  fix r :: re and rep s pre rest at :: string
  assume "at = drop (length pre) s" and "length rest < length at"
  then have "length rest < length s" by auto
  then show "((r, rep, rest), (r, rep, s)) \<in> measure (\<lambda>(r, rep, s). length s)" by simp
next
  fix r :: re and rep s pre rest at :: string and c t
  assume "at = drop (length pre) s" and "at = c # t"
  then have "Suc (length t) = length s - length pre"
    by (metis length_Cons length_drop)
  then show "((r, rep, t), (r, rep, s)) \<in> measure (\<lambda>(r, rep, s). length s)" by simp
qed

text \<open>
  A pattern \<open>P(G)S\<close> with one group: the rests of \<open>P\<close> are tried in order, for each the
  rests of \<open>G\<close>, and the first pair after which \<open>S\<close> matches gives the group's text.
  \<open>match1\<close> is \<open>s.match(/P(G)S/)\<close> read at index 1: \<open>None\<close> when nothing matches.
\<close>

definition exec_grp :: "re \<Rightarrow> re \<Rightarrow> re \<Rightarrow> string \<Rightarrow> string option" where
  "exec_grp P G S s =
     first_some (\<lambda>r1.
       first_some (\<lambda>r2.
         (case ms S r2 of [] \<Rightarrow> None | r3 # _ \<Rightarrow> Some (take (length r1 - length r2) r1)))
         (ms G r1))
       (ms P s)"

fun match1 :: "re \<Rightarrow> re \<Rightarrow> re \<Rightarrow> string \<Rightarrow> string option" where
  "match1 P G S [] = exec_grp P G S []"
| "match1 P G S (c # cs) =
     (case exec_grp P G S (c # cs) of Some g \<Rightarrow> Some g | None \<Rightarrow> match1 P G S cs)"

section \<open>Truncation repair\<close>

text \<open>
  \<^verbatim>\<open>/(.*"[^"]+"\s*:\s*(?:\[[^\]]*\]|"[^"]*"|true|false|null|\d+)\s*,?)\s*"[^"]*"?\s*:\s*[^,}\]]*$/s\<close>:
  the group and what follows it.
\<close>

definition lastComplete_grp :: re where
  \<open>lastComplete_grp =
     seqs [Star anyc, chr CHR ''"'', plus (notc ''"''), chr CHR ''"'', Star space, chr CHR '':'',
           Star space,
           alts [seqs [chr CHR ''['', Star (notc '']''), chr CHR '']''],
                 seqs [chr CHR ''"'', Star (notc ''"''), chr CHR ''"''],
                 str ''true'', str ''false'', str ''null'', plus digit],
           Star space, opt (chr CHR '','')]\<close>

definition lastComplete_rest :: re where
  \<open>lastComplete_rest =
     seqs [Star space, chr CHR ''"'', Star (notc ''"''), opt (chr CHR ''"''), Star space,
           chr CHR '':'', Star space, Star (notc '',}]''), Eol]\<close>

text \<open>\<^verbatim>\<open>/,\s*$/\<close>\<close>

definition trailingComma :: re where
  "trailingComma = seqs [chr CHR '','', Star space, Eol]"

definition count_matches :: "char \<Rightarrow> string \<Rightarrow> nat" where
  "count_matches c s = length (match_all (chr c) s)"

definition repairTruncatedJson :: "string \<Rightarrow> string" where
  \<open>repairTruncatedJson jsonStr =
     (let repaired = jsonStr;
          repaired = (case match1 Eps lastComplete_grp lastComplete_rest repaired of
                        Some g \<Rightarrow> g
                      | None \<Rightarrow> repaired);
          repaired = replace_first trailingComma [] repaired;
          quotes = count_matches CHR ''"'' repaired;
          repaired = (if quotes mod 2 \<noteq> 0 then repaired @ ''"'' else repaired);
          openBrackets = count_matches CHR ''['' repaired;
          closeBrackets = count_matches CHR '']'' repaired;
          repaired = repaired @ replicate (openBrackets - closeBrackets) CHR '']'';
          openBraces = count_matches CHR ''{'' repaired;
          closeBraces = count_matches CHR ''}'' repaired;
          repaired = repaired @ replicate (openBraces - closeBraces) CHR ''}''
      in repaired)\<close>

section \<open>Values\<close>

text \<open>
  The values that parsed JSON and property reads produce. A number is kept as the two
  things the code can see of it: whether it is falsy (zero or NaN) and what \<open>String\<close>
  makes of it. An object is the list of its own properties.
\<close>

datatype jsval =
    Undefined
  | Null
  | Bool bool
  | Num bool string
  | Str string
  | Arr "jsval list"
  | Obj "(string \<times> jsval) list"

fun truthy :: "jsval \<Rightarrow> bool" where
  "truthy Undefined = False"
| "truthy Null = False"
| "truthy (Bool b) = b"
| "truthy (Num z t) = (\<not> z)"
| "truthy (Str s) = (s \<noteq> [])"
| "truthy (Arr xs) = True"
| "truthy (Obj kvs) = True"

text \<open>\<open>a || b\<close>\<close>

definition js_or :: "jsval \<Rightarrow> jsval \<Rightarrow> jsval" where
  "js_or a b = (if truthy a then a else b)"

fun join_with :: "string \<Rightarrow> string list \<Rightarrow> string" where
  "join_with sep [] = []"
| "join_with sep [x] = x"
| "join_with sep (x # xs) = x @ sep @ join_with sep xs"

text \<open>
  \<open>String(v)\<close>, also what a template literal does to \<open>${v}\<close>; \<open>None\<close> is the TypeError of
  an object that cannot be made a primitive: one whose own property \<open>toString\<close> hides the
  inherited method (a parsed property is never callable, and the inherited \<open>valueOf\<close>
  returns the object). An array is its elements joined by commas, \<open>null\<close> and \<open>undefined\<close>
  elements giving nothing.
\<close>

fun String_js :: "jsval \<Rightarrow> string option" where
  "String_js Undefined = Some ''undefined''"
| "String_js Null = Some ''null''"
| "String_js (Bool b) = Some (if b then ''true'' else ''false'')"
| "String_js (Num z t) = Some t"
| "String_js (Str s) = Some s"
| "String_js (Arr xs) =
     map_option (join_with '','')
       (those (map (\<lambda>x. if x = Undefined \<or> x = Null then Some [] else String_js x) xs))"
| "String_js (Obj kvs) =
     (if ''toString'' \<in> fst ` set kvs then None else Some ''[object Object]'')"

text \<open>
  \<open>v.k\<close> for a name \<open>k\<close> that no prototype defines, as the names read here are: \<open>None\<close>
  is the TypeError of reading a property of \<open>null\<close> or \<open>undefined\<close>.
\<close>

fun get :: "jsval \<Rightarrow> string \<Rightarrow> jsval option" where
  "get Undefined k = None"
| "get Null k = None"
| "get (Obj kvs) k = Some (case map_of kvs k of None \<Rightarrow> Undefined | Some v \<Rightarrow> v)"
| "get v k = Some Undefined"

section \<open>The context and the result\<close>

text \<open>
  \<open>repoInfo\<close>, with the fields the normalizer reads and the types the fetchers give them:
  a string or nothing, and the language histogram in the order \<open>Object.keys\<close> lists it.
  Nothing is \<open>undefined\<close>, a field that the provider's answer lacks; a \<open>null\<close> behaves
  as \<open>undefined\<close> does wherever the field is read under \<open>||\<close>, which is everywhere but
  in the heading of the default readme of the validation, where the two would be spelt out.
\<close>

record repoInfo =
  repo_name :: "string option"
  repo_path :: "string option"
  repo_description :: "string option"
  repo_languages :: "(string \<times> nat) list option"

record result =
  projectName :: string
  description :: string
  techStack :: "string list"
  features :: "string list"
  "structure" :: "string list"
  readme :: string

text \<open>\<open>a || b\<close> for a context field \<open>a\<close> and a string \<open>b\<close>.\<close>

definition or_str :: "string option \<Rightarrow> string \<Rightarrow> string" where
  "or_str a b = (case a of None \<Rightarrow> b | Some s \<Rightarrow> if s \<noteq> [] then s else b)"

definition of_str :: "string option \<Rightarrow> jsval" where
  "of_str a = (case a of None \<Rightarrow> Undefined | Some s \<Rightarrow> Str s)"

section \<open>Validation and defaulting\<close>

text \<open>\<open>Array.isArray(v) ? v.slice(0, 5).map(String) : []\<close>\<close>

definition array_field :: "jsval \<Rightarrow> string list option" where
  "array_field v = (case v of Arr xs \<Rightarrow> those (map String_js (take 5 xs)) | _ \<Rightarrow> Some [])"

text \<open>
  \<open>validateAndNormalize\<close>; \<open>None\<close> is an exception (the TypeError of \<open>get\<close> or of
  \<open>String_js\<close>), which the caller catches. The chain
  \<open>parsed.projectName || repoInfo.name || repoInfo.path || "Unknown"\<close> is read with the
  context's part grouped, which \<open>||\<close> allows.
\<close>

definition validateAndNormalize :: "jsval \<Rightarrow> repoInfo \<Rightarrow> result option" where
  \<open>validateAndNormalize parsed repoInfo = do {
     pn \<leftarrow> get parsed ''projectName'';
     projectName' \<leftarrow> String_js (js_or pn
        (Str (or_str (repo_name repoInfo) (or_str (repo_path repoInfo) ''Unknown''))));
     ds \<leftarrow> get parsed ''description'';
     description' \<leftarrow> String_js (js_or ds
        (Str (or_str (repo_description repoInfo) ''A software project.'')));
     ts \<leftarrow> get parsed ''techStack'';
     techStack' \<leftarrow> array_field ts;
     fs \<leftarrow> get parsed ''features'';
     features' \<leftarrow> array_field fs;
     ss \<leftarrow> get parsed ''structure'';
     structure' \<leftarrow> array_field ss;
     rd \<leftarrow> get parsed ''readme'';
     readme' \<leftarrow>
       (if truthy rd then String_js rd
        else do {
          h \<leftarrow> String_js (js_or pn (of_str (repo_name repoInfo)));
          d \<leftarrow> String_js (js_or ds (Str []));
          Some (''# '' @ h @ [CHR 0x0A, CHR 0x0A] @ d)
        });
     Some \<lparr>projectName = projectName', description = description', techStack = techStack',
           features = features', structure = structure', readme = readme'\<rparr>
   }\<close>

section \<open>Regex extraction\<close>

text \<open>\<^verbatim>\<open>/"<key>"\s*:\s*"\<close>, the start of the scalar patterns.\<close>

definition key_colon :: "string \<Rightarrow> re list" where
  \<open>key_colon key = [chr CHR ''"'', str key, chr CHR ''"'', Star space, chr CHR '':'', Star space]\<close>

text \<open>\<^verbatim>\<open>/"([^"]+)"/g\<close>\<close>

definition quoted_item :: re where
  \<open>quoted_item = seqs [chr CHR ''"'', plus (notc ''"''), chr CHR ''"'']\<close>

text \<open>
  \<open>extractArray\<close>, with \<^verbatim>\<open>/"<key>"\s*:\s*\[([^\]]*)/\<close>; the items are the quoted
  texts of the group, their quotes removed, five at most.
\<close>

definition extractArray :: "string \<Rightarrow> string \<Rightarrow> string list" where
  \<open>extractArray content key =
     (case match1 (seqs (key_colon key @ [chr CHR ''[''])) (Star (notc '']'')) Eps content of
        Some g \<Rightarrow> take 5 (map (replace_all (chr CHR ''"'') []) (match_all quoted_item g))
      | None \<Rightarrow> [])\<close>

text \<open>
  \<open>extractPartialData\<close>. The scalar patterns are \<^verbatim>\<open>/"projectName"\s*:\s*"([^"]+)"/\<close>,
  the same for \<open>description\<close>, and \<^verbatim>\<open>/"readme"\s*:\s*"((?:[^"\\]|\\.)*)"/\<close>.
\<close>

definition extractPartialData :: "string \<Rightarrow> repoInfo \<Rightarrow> result" where
  \<open>extractPartialData content repoInfo =
     (let result = \<lparr>
            projectName = or_str (repo_name repoInfo) (or_str (repo_path repoInfo) ''Unknown Project''),
            description = or_str (repo_description repoInfo) ''Repository analysis completed.'',
            techStack = [],
            features = [],
            structure = [],
            readme = ''# '' @ or_str (repo_name repoInfo) (or_str (repo_path repoInfo) ''Project'')
                     @ [CHR 0x0A, CHR 0x0A]
                     @ or_str (repo_description repoInfo) ''A software project.''\<rparr>;
          result = (case match1 (seqs (key_colon ''projectName'' @ [chr CHR ''"'']))
                                (plus (notc ''"'')) (chr CHR ''"'') content of
                      Some g \<Rightarrow> result\<lparr>projectName := g\<rparr>
                    | None \<Rightarrow> result);
          result = (case match1 (seqs (key_colon ''description'' @ [chr CHR ''"'']))
                                (plus (notc ''"'')) (chr CHR ''"'') content of
                      Some g \<Rightarrow> result\<lparr>description := g\<rparr>
                    | None \<Rightarrow> result);
          result = result\<lparr>techStack := extractArray content ''techStack''\<rparr>;
          result = result\<lparr>features := extractArray content ''features''\<rparr>;
          result = result\<lparr>structure := extractArray content ''structure''\<rparr>;
          result = (case match1 (seqs (key_colon ''readme'' @ [chr CHR ''"'']))
                                (Star (Alt (notc [CHR ''"'', CHR 0x5C]) (Seq (chr CHR 0x5C) dot)))
                                (chr CHR ''"'') content of
                      Some g \<Rightarrow> result\<lparr>readme :=
                        replace_all (seqs [chr CHR 0x5C, chr CHR ''"'']) ''"''
                          (replace_all (seqs [chr CHR 0x5C, chr CHR ''n'']) [CHR 0x0A] g)\<rparr>
                    | None \<Rightarrow> result);
          result = (case repo_languages repoInfo of
                      Some languages \<Rightarrow>
                        if length (techStack result) = 0
                        then result\<lparr>techStack := take 4 (map fst languages)\<rparr>
                        else result
                    | None \<Rightarrow> result)
      in result)\<close>

section \<open>The funnel\<close>

text \<open>What is thrown: an \<open>Error\<close> with its message, or one of the built-in kinds.\<close>

datatype error = Error string | SyntaxError | TypeError | InvalidCharacterError

text \<open>\<^verbatim>\<open>/```(?:json)?\s*([\s\S]*?)```/\<close>: what precedes the group, the group, what follows.\<close>

definition fence_open :: re where
  "fence_open = seqs [str ''```'', opt (str ''json''), Star space]"

definition fence_body :: re where
  "fence_body = Lazy anyc"

definition fence_close :: re where
  "fence_close = str ''```''"

text \<open>
  \<open>analyzeWithAI\<close> from the point where the completion \<open>content\<close> has arrived. \<open>parse\<close> is
  \<open>JSON.parse\<close>, \<open>None\<close> its SyntaxError; each \<open>try\<close> block is a parse followed by
  \<open>validateAndNormalize\<close>, and its \<open>catch\<close> takes either failure.
\<close>

definition boundaries :: "string \<Rightarrow> string" where
  \<open>boundaries content =
     (let jsonStr = trim content;
          jsonStr = (case match1 fence_open fence_body fence_close jsonStr of
                       Some g \<Rightarrow> trim g
                     | None \<Rightarrow> jsonStr);
          jsonStart = indexOf jsonStr CHR ''{'';
          jsonEnd = lastIndexOf jsonStr CHR ''}''
      in if jsonStart \<noteq> -1 \<and> jsonEnd \<noteq> -1 \<and> jsonEnd > jsonStart
         then substring jsonStr jsonStart (jsonEnd + 1)
         else if jsonStart \<noteq> -1 then substring_from jsonStr jsonStart
         else jsonStr)\<close>

definition analyzeWithAI :: "(string \<Rightarrow> jsval option) \<Rightarrow> repoInfo \<Rightarrow> string \<Rightarrow> error + result" where
  "analyzeWithAI parse repoInfo content =
     (if content = [] then Inl (Error ''No response from AI'')
      else
        (let jsonStr = boundaries content
         in case (do { parsed \<leftarrow> parse jsonStr; validateAndNormalize parsed repoInfo }) of
              Some r \<Rightarrow> Inr r
            | None \<Rightarrow>
               (case (do { parsed \<leftarrow> parse (repairTruncatedJson jsonStr);
                           validateAndNormalize parsed repoInfo }) of
                  Some r \<Rightarrow> Inr r
                | None \<Rightarrow> Inr (extractPartialData jsonStr repoInfo))))"

text \<open>
  \<open>analyzeCodeWithAI\<close> of the review function, from the same point: the same fence and
  boundary steps without the open-ended slice, then one parse.
\<close>

definition review_boundaries :: "string \<Rightarrow> string" where
  \<open>review_boundaries content =
     (let jsonStr = trim content;
          jsonStr = (case match1 fence_open fence_body fence_close jsonStr of
                       Some g \<Rightarrow> trim g
                     | None \<Rightarrow> jsonStr);
          jsonStart = indexOf jsonStr CHR ''{'';
          jsonEnd = lastIndexOf jsonStr CHR ''}''
      in if jsonStart \<noteq> -1 \<and> jsonEnd \<noteq> -1 \<and> jsonStart < jsonEnd
         then substring jsonStr jsonStart (jsonEnd + 1)
         else jsonStr)\<close>

definition analyzeCodeWithAI :: "(string \<Rightarrow> jsval option) \<Rightarrow> string \<Rightarrow> error + jsval" where
  "analyzeCodeWithAI parse content =
     (if content = [] then Inl (Error ''No response from AI'')
      else
        (case parse (review_boundaries content) of
           Some v \<Rightarrow> Inr v
         | None \<Rightarrow> Inl (Error ''AI returned invalid JSON response. Please try again.'')))"

section \<open>A model of \<open>JSON.parse\<close>\<close>

text \<open>
  \<open>JSON.parse\<close> is the platform's; the functions above take it as the parameter \<open>parse\<close>,
  and what is proved of them for every \<open>parse\<close> holds for the platform's. \<open>JSON_parse\<close>
  follows the JSON grammar and stands for it where a text is parsed in an example. Two
  things it does not reach: an escape \<open>\uXXXX\<close> of a code unit above 255 has no \<^typ>\<open>char\<close>
  and is refused; and a number is read from its literal, zero when its digits before the
  exponent are all zero and rendered by its own text otherwise, which is what \<open>String\<close>
  gives for an integer literal of magnitude below \<open>2^53\<close> and may differ for another.
\<close>

datatype token = TLBrace | TRBrace | TLBrack | TRBrack | TColon | TComma | TVal jsval

definition hex_val :: "char \<Rightarrow> nat option" where
  "hex_val c =
     (let n = of_char c :: nat
      in if 48 \<le> n \<and> n \<le> 57 then Some (n - 48)
         else if 65 \<le> n \<and> n \<le> 70 then Some (n - 55)
         else if 97 \<le> n \<and> n \<le> 102 then Some (n - 87)
         else None)"

definition unicode_escape :: "char \<Rightarrow> char \<Rightarrow> char \<Rightarrow> char \<Rightarrow> char option" where
  "unicode_escape a b c d = do {
     a' \<leftarrow> hex_val a; b' \<leftarrow> hex_val b; c' \<leftarrow> hex_val c; d' \<leftarrow> hex_val d;
     if a' = 0 \<and> b' = 0 then Some (char_of (16 * c' + d')) else None
   }"

definition simple_escape :: "char \<Rightarrow> char option" where
  \<open>simple_escape e =
     (if e = CHR ''"'' then Some CHR ''"''
      else if e = CHR 0x5C then Some CHR 0x5C
      else if e = CHR ''/'' then Some CHR ''/''
      else if e = CHR ''b'' then Some CHR 0x08
      else if e = CHR ''f'' then Some CHR 0x0C
      else if e = CHR ''n'' then Some CHR 0x0A
      else if e = CHR ''r'' then Some CHR 0x0D
      else if e = CHR ''t'' then Some CHR 0x09
      else None)\<close>

text \<open>The characters of a string literal after its opening quote: the string and the rest.\<close>

fun lex_str :: "string \<Rightarrow> string \<Rightarrow> (string \<times> string) option" where
  "lex_str acc [] = None"
| "lex_str acc [c] = (if c = CHR 0x22 then Some (rev acc, []) else None)"
| "lex_str acc (c # e # cs) =
     (if c = CHR 0x22 then Some (rev acc, e # cs)
      else if c = CHR 0x5C then
        (if e = CHR ''u'' then
           (case cs of
              h1 # h2 # h3 # h4 # cs' \<Rightarrow>
                (case unicode_escape h1 h2 h3 h4 of
                   Some u \<Rightarrow> lex_str (u # acc) cs'
                 | None \<Rightarrow> None)
            | _ \<Rightarrow> None)
         else
           (case simple_escape e of
              Some u \<Rightarrow> lex_str (u # acc) cs
            | None \<Rightarrow> None))
      else if (of_char c :: nat) < 32 then None
      else lex_str (c # acc) (e # cs))"

text \<open>
  A number literal is the longest run of the characters a number can hold, which must be a
  number as a whole: \<^verbatim>\<open>-?(0|[1-9]\d*)(\.\d+)?([eE][+-]?\d+)?\<close>.
\<close>

definition number_re :: re where
  "number_re =
     seqs [opt (chr CHR ''-''),
           alts [chr CHR ''0'', Seq (Sym (\<lambda>c. c \<in> set ''123456789'')) (Star digit)],
           opt (seqs [chr CHR ''.'', plus digit]),
           opt (seqs [Sym (\<lambda>c. c \<in> set ''eE''), opt (Sym (\<lambda>c. c \<in> set ''+-'')), plus digit])]"

definition is_num_char :: "char \<Rightarrow> bool" where
  "is_num_char c = (c \<in> set ''-+.eE0123456789'')"

definition num_of :: "string \<Rightarrow> jsval option" where
  "num_of lexeme =
     (if [] \<in> set (ms number_re lexeme)
      then (let mantissa = takeWhile (\<lambda>c. c \<notin> set ''eE'') lexeme;
                zero = list_all (\<lambda>c. c \<in> set ''-.0'') mantissa
            in Some (Num zero (if zero then ''0'' else lexeme)))
      else None)"

definition is_json_space :: "char \<Rightarrow> bool" where
  "is_json_space c = (c \<in> set [CHR 0x20, CHR 0x09, CHR 0x0A, CHR 0x0D])"

lemma lex_str_shorter: "lex_str acc s = Some (v, rest) \<Longrightarrow> length rest < Suc (length s)"
proof (induction acc s rule: lex_str.induct)
  case (1 acc)
  then show ?case by simp
next
  case (2 acc c)
  then show ?case by (simp split: if_splits)
next
  case (3 acc c e cs)
  show ?case
  proof (cases "c = CHR 0x22")
    case True
    with "3.prems" show ?thesis by simp
  next
    case nq: False
    show ?thesis
    proof (cases "c = CHR 0x5C")
      case bs: True
      show ?thesis
      proof (cases "e = CHR ''u''")
        case True
        with nq bs "3.prems" obtain h1 h2 h3 h4 cs' u where
          cs: "cs = h1 # h2 # h3 # h4 # cs'" and u: "unicode_escape h1 h2 h3 h4 = Some u"
          and r: "lex_str (u # acc) cs' = Some (v, rest)"
          by (auto split: list.splits option.splits)
        from "3.IH"(1) [OF nq bs True cs _ _ _ u r] have "length rest < Suc (length cs')"
          by simp
        with cs show ?thesis by simp
      next
        case False
        with nq bs "3.prems" obtain u where u: "simple_escape e = Some u"
          and r: "lex_str (u # acc) cs = Some (v, rest)"
          by (auto split: option.splits)
        from "3.IH"(2) [OF nq bs False u r] show ?thesis by simp
      qed
    next
      case False
      with nq "3.prems" have c: "\<not> (of_char c :: nat) < 32" and r: "lex_str (c # acc) (e # cs) = Some (v, rest)"
        by (auto split: if_splits)
      from "3.IH"(3) [OF nq False c r] show ?thesis by simp
    qed
  qed
qed

function lex :: "string \<Rightarrow> token list option" where
  "lex [] = Some []"
| "lex (c # cs) =
     (if is_json_space c then lex cs
      else if c = CHR ''{'' then map_option ((#) TLBrace) (lex cs)
      else if c = CHR ''}'' then map_option ((#) TRBrace) (lex cs)
      else if c = CHR ''['' then map_option ((#) TLBrack) (lex cs)
      else if c = CHR '']'' then map_option ((#) TRBrack) (lex cs)
      else if c = CHR '':'' then map_option ((#) TColon) (lex cs)
      else if c = CHR '','' then map_option ((#) TComma) (lex cs)
      else if c = CHR 0x22 then
        (case lex_str [] cs of
           Some (s, rest) \<Rightarrow> map_option ((#) (TVal (Str s))) (lex rest)
         | None \<Rightarrow> None)
      else if c = CHR ''-'' \<or> is_digit c then
        (case num_of (c # takeWhile is_num_char cs) of
           Some v \<Rightarrow> map_option ((#) (TVal v)) (lex (dropWhile is_num_char cs))
         | None \<Rightarrow> None)
      else if take 4 (c # cs) = ''true'' then map_option ((#) (TVal (Bool True))) (lex (drop 3 cs))
      else if take 5 (c # cs) = ''false'' then map_option ((#) (TVal (Bool False))) (lex (drop 4 cs))
      else if take 4 (c # cs) = ''null'' then map_option ((#) (TVal Null)) (lex (drop 3 cs))
      else None)"
  by pat_completeness auto
termination
  by (relation "measure length")
     (auto simp: le_imp_less_Suc length_dropWhile_le dest: lex_str_shorter)

text \<open>
  The parser reads the tokens with a stack of the arrays and objects that are open. A
  property named twice keeps its first place and its last value.
\<close>

datatype frame = FArr "jsval list" | FObj "(string \<times> jsval) list" | FKey "(string \<times> jsval) list" string

datatype expect = EValue | EValueOrClose | EKeyOrClose | EKey | EColon string | EAfter jsval

fun start_value :: "frame list \<Rightarrow> token \<Rightarrow> (expect \<times> frame list) option" where
  "start_value st (TVal v) = Some (EAfter v, st)"
| "start_value st TLBrack = Some (EValueOrClose, FArr [] # st)"
| "start_value st TLBrace = Some (EKeyOrClose, FObj [] # st)"
| "start_value st t = None"

definition step :: "expect \<Rightarrow> frame list \<Rightarrow> token \<Rightarrow> (expect \<times> frame list) option" where
  "step e st t =
     (case e of
        EValue \<Rightarrow> start_value st t
      | EValueOrClose \<Rightarrow>
          (case (st, t) of
             (FArr xs # st', TRBrack) \<Rightarrow> Some (EAfter (Arr xs), st')
           | _ \<Rightarrow> start_value st t)
      | EKeyOrClose \<Rightarrow>
          (case (st, t) of
             (FObj kvs # st', TRBrace) \<Rightarrow> Some (EAfter (Obj kvs), st')
           | (_, TVal (Str k)) \<Rightarrow> Some (EColon k, st)
           | _ \<Rightarrow> None)
      | EKey \<Rightarrow>
          (case t of
             TVal (Str k) \<Rightarrow> Some (EColon k, st)
           | _ \<Rightarrow> None)
      | EColon k \<Rightarrow>
          (case (st, t) of
             (FObj kvs # st', TColon) \<Rightarrow> Some (EValue, FKey kvs k # st')
           | _ \<Rightarrow> None)
      | EAfter v \<Rightarrow>
          (case (st, t) of
             (FArr xs # st', TComma) \<Rightarrow> Some (EValue, FArr (xs @ [v]) # st')
           | (FArr xs # st', TRBrack) \<Rightarrow> Some (EAfter (Arr (xs @ [v])), st')
           | (FKey kvs k # st', TComma) \<Rightarrow> Some (EKey, FObj (AList.update k v kvs) # st')
           | (FKey kvs k # st', TRBrace) \<Rightarrow> Some (EAfter (Obj (AList.update k v kvs)), st')
           | _ \<Rightarrow> None))"

fun parse_tokens :: "expect \<Rightarrow> frame list \<Rightarrow> token list \<Rightarrow> jsval option" where
  "parse_tokens (EAfter v) [] [] = Some v"
| "parse_tokens e st [] = None"
| "parse_tokens e st (t # ts) =
     (case step e st t of Some (e', st') \<Rightarrow> parse_tokens e' st' ts | None \<Rightarrow> None)"

definition JSON_parse :: "string \<Rightarrow> jsval option" where
  "JSON_parse s = do { ts \<leftarrow> lex s; parse_tokens EValue [] ts }"

section \<open>The fetchers\<close>

text \<open>
  A response of the provider: its status and its body. \<open>res.ok\<close> is a status from 200 to
  299; \<open>res.json()\<close> parses the body and throws a SyntaxError when it is not JSON.
\<close>

record response =
  status :: nat
  body :: string

definition ok :: "response \<Rightarrow> bool" where
  "ok res = (200 \<le> status res \<and> status res \<le> 299)"

definition json :: "(string \<Rightarrow> jsval option) \<Rightarrow> response \<Rightarrow> error + jsval" where
  "json parse res = (case parse (body res) of Some v \<Rightarrow> Inr v | None \<Rightarrow> Inl SyntaxError)"

text \<open>What a fetcher returns; \<open>data\<close> is \<open>repoData\<close> for GitHub and \<open>projectData\<close> for GitLab.\<close>

record fetched =
  data :: jsval
  tree :: jsval
  languages :: jsval
  packageJson :: jsval

fun digits :: "nat \<Rightarrow> string" where
  "digits n = (if n < 10 then [char_of (48 + n)] else digits (n div 10) @ [char_of (48 + n mod 10)])"

declare digits.simps [simp del]

text \<open>
  \<open>atob\<close>: the text without its ASCII whitespace, without one or two closing \<open>=\<close> when its
  length is a multiple of four, is read six bits a character; \<open>None\<close> is the
  InvalidCharacterError of a character outside the alphabet or of a length that leaves
  one character over.
\<close>

definition b64_val :: "char \<Rightarrow> nat option" where
  "b64_val c =
     (let n = of_char c :: nat
      in if 65 \<le> n \<and> n \<le> 90 then Some (n - 65)
         else if 97 \<le> n \<and> n \<le> 122 then Some (n - 71)
         else if 48 \<le> n \<and> n \<le> 57 then Some (n + 4)
         else if c = CHR ''+'' then Some 62
         else if c = CHR ''/'' then Some 63
         else None)"

fun b64_bytes :: "nat list \<Rightarrow> string" where
  "b64_bytes (a # b # c # d # r) =
     [char_of (a * 4 + b div 16), char_of ((b mod 16) * 16 + c div 4), char_of ((c mod 4) * 64 + d)]
     @ b64_bytes r"
| "b64_bytes [a, b, c] = [char_of (a * 4 + b div 16), char_of ((b mod 16) * 16 + c div 4)]"
| "b64_bytes [a, b] = [char_of (a * 4 + b div 16)]"
| "b64_bytes r = []"

definition strip_padding :: "string \<Rightarrow> string" where
  "strip_padding s =
     (if length s mod 4 = 0
      then (case rev s of
              a # b # r \<Rightarrow> if a = CHR ''='' then (if b = CHR ''='' then rev r else rev (b # r)) else s
            | _ \<Rightarrow> s)
      else s)"

definition atob :: "string \<Rightarrow> string option" where
  "atob s =
     (let d = strip_padding (filter (\<lambda>c. c \<notin> set [CHR 0x09, CHR 0x0A, CHR 0x0C, CHR 0x0D, CHR 0x20]) s)
      in if length d mod 4 = 1 then None
         else map_option b64_bytes (those (map b64_val d)))"

text \<open>
  \<open>treeData.tree?.slice(0, 100) || []\<close>: an array or a string has \<open>slice\<close>; calling it on
  another value is a TypeError.
\<close>

definition tree_sample :: "jsval \<Rightarrow> error + jsval" where
  "tree_sample treeData =
     (case get treeData ''tree'' of
        None \<Rightarrow> Inl TypeError
      | Some t \<Rightarrow>
          (case t of
             Undefined \<Rightarrow> Inr (Arr [])
           | Null \<Rightarrow> Inr (Arr [])
           | Arr xs \<Rightarrow> Inr (js_or (Arr (take 100 xs)) (Arr []))
           | Str s \<Rightarrow> Inr (js_or (Str (take 100 s)) (Arr []))
           | _ \<Rightarrow> Inl TypeError))"

text \<open>
  \<open>fetchGitHubRepo\<close> and \<open>fetchGitLabRepo\<close>, as functions of the four responses that their
  four requests receive.
\<close>

definition github_manifest :: "(string \<Rightarrow> jsval option) \<Rightarrow> response \<Rightarrow> error + jsval" where
  "github_manifest parse pkgRes =
     (if ok pkgRes then
        (case json parse pkgRes of
           Inl e \<Rightarrow> Inl e
         | Inr pkgData \<Rightarrow>
             (case get pkgData ''content'' of
                None \<Rightarrow> Inl TypeError
              | Some content \<Rightarrow>
                  if truthy content then
                    (case String_js content of
                       None \<Rightarrow> Inl TypeError
                     | Some b64 \<Rightarrow>
                         (case atob b64 of
                            None \<Rightarrow> Inl InvalidCharacterError
                          | Some text \<Rightarrow>
                              (case parse text of
                                 None \<Rightarrow> Inl SyntaxError
                               | Some v \<Rightarrow> Inr v)))
                  else Inr Null))
      else Inr Null)"

definition fetchGitHubRepo ::
  "(string \<Rightarrow> jsval option) \<Rightarrow> response \<Rightarrow> response \<Rightarrow> response \<Rightarrow> response \<Rightarrow> error + fetched" where
  "fetchGitHubRepo parse repoRes treeRes langRes pkgRes =
     (if \<not> ok repoRes
      then Inl (Error (''GitHub API error: '' @ digits (status repoRes) @ '' - '' @ body repoRes))
      else
        (case json parse repoRes of
           Inl e \<Rightarrow> Inl e
         | Inr repoData \<Rightarrow>
             (case (if ok treeRes
                    then (case json parse treeRes of Inl e \<Rightarrow> Inl e | Inr treeData \<Rightarrow> tree_sample treeData)
                    else Inr (Arr [])) of
                Inl e \<Rightarrow> Inl e
              | Inr tree' \<Rightarrow>
                  (case (if ok langRes then json parse langRes else Inr (Obj [])) of
                     Inl e \<Rightarrow> Inl e
                   | Inr languages' \<Rightarrow>
                       (case github_manifest parse pkgRes of
                          Inl e \<Rightarrow> Inl e
                        | Inr packageJson' \<Rightarrow>
                            Inr \<lparr>data = repoData, tree = tree', languages = languages',
                                 packageJson = packageJson'\<rparr>)))))"

definition gitlab_manifest :: "(string \<Rightarrow> jsval option) \<Rightarrow> response \<Rightarrow> jsval" where
  "gitlab_manifest parse pkgRes =
     (if ok pkgRes
      then (case parse (body pkgRes) of Some v \<Rightarrow> v | None \<Rightarrow> Null)
      else Null)"

definition fetchGitLabRepo ::
  "(string \<Rightarrow> jsval option) \<Rightarrow> response \<Rightarrow> response \<Rightarrow> response \<Rightarrow> response \<Rightarrow> error + fetched" where
  "fetchGitLabRepo parse projectRes treeRes langRes pkgRes =
     (if \<not> ok projectRes
      then Inl (Error (''GitLab API error: '' @ digits (status projectRes) @ '' - '' @ body projectRes))
      else
        (case json parse projectRes of
           Inl e \<Rightarrow> Inl e
         | Inr projectData \<Rightarrow>
             (case (if ok treeRes then json parse treeRes else Inr (Arr [])) of
                Inl e \<Rightarrow> Inl e
              | Inr tree' \<Rightarrow>
                  (case (if ok langRes then json parse langRes else Inr (Obj [])) of
                     Inl e \<Rightarrow> Inl e
                   | Inr languages' \<Rightarrow>
                       Inr \<lparr>data = projectData, tree = tree', languages = languages',
                            packageJson = gitlab_manifest parse pkgRes\<rparr>))))"

section \<open>The repair steps as the specification words them\<close>








section \<open>The result as a value, and the inputs of the examples\<close>

text \<open>A result object read again as a value, which is what a second validation is given.\<close>

definition result_value :: "result \<Rightarrow> jsval" where
  "result_value r =
     Obj [(''projectName'', Str (projectName r)),
          (''description'', Str (description r)),
          (''techStack'', Arr (map Str (techStack r))),
          (''features'', Arr (map Str (features r))),
          (''structure'', Arr (map Str (structure r))),
          (''readme'', Str (readme r))]"

definition repo_ts :: repoInfo where
  "repo_ts = \<lparr>repo_name = Some ''repo'', repo_path = None, repo_description = None,
              repo_languages = Some [(''TypeScript'', 100)]\<rparr>"

definition scenarioA :: string where
  \<open>scenarioA = ''{"projectName":"Foo","description":"A tool","techStack":["TS"],"features":[],"structure":[],"readme":"# Foo"}''\<close>

definition scenarioD :: string where
  \<open>scenarioD = ''Here is your analysis: projectName is "Foo" and techStack includes "TS", "React"''\<close>

text \<open>Scenario A with a feature that quotes a fenced block.\<close>

definition fenced_feature :: string where
  \<open>fenced_feature = ''{"projectName":"Foo","description":"A tool","techStack":["TS"],"features":["```md``` blocks"],"structure":[],"readme":"# Foo"}''\<close>

text \<open>Completions of the review: one cut short, one wrapped in a fence.\<close>

definition truncated_review :: string where
  \<open>truncated_review = ''{"status":"passed","issues":[],"summary":"All goo''\<close>

definition fenced_review :: string where
  \<open>fenced_review = ''```json {"status":"passed","issues":[],"summary":"ok"} ```''\<close>

text \<open>
  A parsed object whose description and readme are longer than the 100 and 800 characters
  that the prompt declares for them, and one whose \<open>techStack\<close> has eight elements.
\<close>

definition long_fields :: jsval where
  "long_fields =
     Obj [(''description'', Str (replicate 101 CHR ''a'')), (''readme'', Str (replicate 801 CHR ''b''))]"

definition eight_elements :: jsval where
  "eight_elements =
     Obj [(''techStack'', Arr [Str ''a'', Str ''b'', Str ''c'', Str ''d'', Str ''e'', Str ''f'',
                               Str ''g'', Str ''h''])]"

text \<open>
  Responses of the providers: a repository found, an endpoint that answers 404, and a
  \<open>package.json\<close> whose text is the single character \<open>{\<close>, as GitHub delivers it (in
  base 64, inside an object) and as GitLab delivers it (raw).
\<close>

definition repo_found :: response where
  \<open>repo_found = \<lparr>status = 200, body = ''{"name":"repo"}''\<rparr>\<close>

definition not_found :: response where
  "not_found = \<lparr>status = 404, body = ''Not Found''\<rparr>"

definition github_manifest_broken :: response where
  \<open>github_manifest_broken = \<lparr>status = 200, body = ''{"content":"ew=="}''\<rparr>\<close>

definition gitlab_manifest_broken :: response where
  \<open>gitlab_manifest_broken = \<lparr>status = 200, body = ''{''\<rparr>\<close>

section \<open>Facts about the matcher\<close>

declare ms.simps(5) [simp del] ms.simps(6) [simp del]
declare match_all.simps [simp del] replace_all.simps [simp del]

lemma first_some_SomeD:
  "first_some f xs = Some y \<Longrightarrow> \<exists>x \<in> set xs. f x = Some y"
  by (induction xs) (auto split: option.splits)

lemma first_some_None_iff:
  "first_some f xs = None \<longleftrightarrow> (\<forall>x \<in> set xs. f x = None)"
  by (induction xs) (auto split: option.splits)

lemma ms_suffix: "x \<in> set (ms r s) \<Longrightarrow> suffix x s"
proof (induction r s arbitrary: x rule: ms.induct)
  case (1 s)
  then show ?case by simp
next
  case (2 p s)
  then show ?case by (auto split: list.splits if_splits simp: suffix_Cons)
next
  case (3 a b s)
  then show ?case by (auto intro: suffix_order.trans)
next
  case (4 a b s)
  then show ?case by auto
next
  case (5 a s)
  from "5.prems" have "x = s \<or> (\<exists>y \<in> set (ms a s). length y < length s \<and> x \<in> set (ms (Star a) y))"
    by (subst (asm) ms.simps(5)) (auto split: if_splits)
  with "5.IH" show ?case by (auto intro: suffix_order.trans)
next
  case (6 a s)
  from "6.prems" have "x = s \<or> (\<exists>y \<in> set (ms a s). length y < length s \<and> x \<in> set (ms (Lazy a) y))"
    by (subst (asm) ms.simps(6)) (auto split: if_splits)
  with "6.IH" show ?case by (auto intro: suffix_order.trans)
next
  case (7 s)
  then show ?case by (auto split: if_splits)
qed

lemma ms_star_any_Cons: "ms (Star anyc) (c # cs) = ms (Star anyc) cs @ [c # cs]"
  by (subst ms.simps(5)) (simp add: anyc_def)

lemma ms_seq_star_any_mono:
  "set (ms (Seq (Star anyc) X) cs) \<subseteq> set (ms (Seq (Star anyc) X) (c # cs))"
  by (simp only: ms.simps(3) ms_star_any_Cons) auto

lemma first_some_single: "first_some f [x] = f x"
  by (simp split: option.splits)

lemma exec_grp_Eps:
  "exec_grp Eps G S s =
     first_some (\<lambda>r2. case ms S r2 of [] \<Rightarrow> None | r3 # _ \<Rightarrow> Some (take (length s - length r2) s)) (ms G s)"
  by (simp only: exec_grp_def ms.simps first_some_single)

lemma exec_grp_Eps_None_iff:
  "exec_grp Eps G S s = None \<longleftrightarrow> (\<forall>r2 \<in> set (ms G s). ms S r2 = [])"
  unfolding exec_grp_Eps first_some_None_iff by (auto split: list.splits) (meson neq_Nil_conv)

lemma exec_grp_Eps_prefix:
  assumes "exec_grp Eps G S s = Some g"
  shows "prefix g s"
proof -
  from assms obtain r2 where "(case ms S r2 of [] \<Rightarrow> None | r3 # _ \<Rightarrow> Some (take (length s - length r2) s)) = Some g"
    unfolding exec_grp_Eps by (blast dest: first_some_SomeD)
  then have "g = take (length s - length r2) s" by (auto split: list.splits)
  then show ?thesis by (simp add: take_is_prefix)
qed

lemma match1_star_any_at_start:
  "match1 Eps (Seq (Star anyc) X) S s = Some g \<Longrightarrow> exec_grp Eps (Seq (Star anyc) X) S s = Some g"
proof (induction s)
  case Nil
  then show ?case by simp
next
  case (Cons c cs)
  show ?case
  proof (cases "exec_grp Eps (Seq (Star anyc) X) S (c # cs)")
    case None
    with Cons.prems have "match1 Eps (Seq (Star anyc) X) S cs = Some g" by simp
    then have "exec_grp Eps (Seq (Star anyc) X) S cs = Some g" by (rule Cons.IH)
    then obtain r2 where "r2 \<in> set (ms (Seq (Star anyc) X) cs)" "ms S r2 \<noteq> []"
      using exec_grp_Eps_None_iff [of "Seq (Star anyc) X" S cs] by auto
    then have "exec_grp Eps (Seq (Star anyc) X) S (c # cs) \<noteq> None"
      using ms_seq_star_any_mono [of X cs c] exec_grp_Eps_None_iff [of "Seq (Star anyc) X" S "c # cs"]
      by blast
    with None show ?thesis by simp
  next
    case (Some a)
    with Cons.prems show ?thesis by simp
  qed
qed

lemma lastComplete_grp_shape: "\<exists>X. lastComplete_grp = Seq (Star anyc) X"
  by (simp add: lastComplete_grp_def)

lemma lastComplete_prefix:
  "match1 Eps lastComplete_grp lastComplete_rest s = Some g \<Longrightarrow> prefix g s"
proof -
  assume m: "match1 Eps lastComplete_grp lastComplete_rest s = Some g"
  obtain X where X: "lastComplete_grp = Seq (Star anyc) X"
    using lastComplete_grp_shape by blast
  from m have "exec_grp Eps lastComplete_grp lastComplete_rest s = Some g"
    unfolding X by (rule match1_star_any_at_start)
  then show ?thesis by (rule exec_grp_Eps_prefix)
qed

lemma search_split:
  "search r s = Some (pre, rest) \<Longrightarrow> \<exists>m. s = pre @ m @ rest"
proof (induction s arbitrary: pre rest)
  case Nil
  then show ?case using ms_suffix [of rest r "[]"] by (auto split: list.splits)
next
  case (Cons c cs)
  show ?case
  proof (cases "ms r (c # cs)")
    case Nil
    with Cons.prems obtain pre' where "search r cs = Some (pre', rest)" "pre = c # pre'"
      by auto
    with Cons.IH show ?thesis by fastforce
  next
    case (Cons x xs)
    with Cons.prems have "pre = []" "rest = x" by auto
    moreover have "suffix x (c # cs)" using ms_suffix [of x r "c # cs"] Cons by simp
    ultimately show ?thesis by (auto simp: suffix_def)
  qed
qed

lemma search_rest_in_ms:
  "search r s = Some (pre, rest) \<Longrightarrow> \<exists>t. rest \<in> set (ms r t)"
proof (induction s arbitrary: pre)
  case Nil
  then show ?case by (auto split: list.splits intro: exI [of _ "[]"])
next
  case (Cons c cs)
  then show ?case
    by (cases "ms r (c # cs)") (auto intro: exI [of _ "c # cs"])
qed

lemma ms_Seq_iff: "x \<in> set (ms (Seq a b) s) \<longleftrightarrow> (\<exists>y \<in> set (ms a s). x \<in> set (ms b y))"
  by auto

lemma ms_Eol_iff: "x \<in> set (ms Eol s) \<longleftrightarrow> s = [] \<and> x = []"
  by auto

lemma trailingComma_rest: "rest \<in> set (ms trailingComma t) \<Longrightarrow> rest = []"
  by (auto simp only: trailingComma_def seqs.simps ms_Seq_iff ms_Eol_iff)

lemma replace_trailingComma_prefix: "prefix (replace_first trailingComma [] s) s"
proof (cases "search trailingComma s")
  case None
  then show ?thesis by (simp add: replace_first_def)
next
  case (Some a)
  obtain pre rest where a: "a = (pre, rest)" by (cases a)
  with Some have "rest = []" using search_rest_in_ms trailingComma_rest by blast
  moreover obtain m where "s = pre @ m @ rest" using search_split Some a by blast
  ultimately show ?thesis using Some a by (simp add: replace_first_def)
qed

lemma ms_chr: "ms (chr c) s = (case s of [] \<Rightarrow> [] | x # xs \<Rightarrow> if x = c then [xs] else [])"
  by (simp add: chr_def)




lemma ms_star_space:
  "ms (Star space) s = (case s of [] \<Rightarrow> [[]] | x # xs \<Rightarrow> if is_space x then ms (Star space) xs @ [x # xs] else [x # xs])"
  by (subst ms.simps(5)) (simp add: space_def split: list.splits)

lemma ms_star_space_eol:
  "ms (Seq (Star space) Eol) s = (if list_all is_space s then [[]] else [])"
proof (induction s)
  case Nil
  then show ?case by (simp add: ms_star_space)
next
  case (Cons x xs)
  have "ms (Seq (Star space) Eol) (x # xs) = (if is_space x then ms (Seq (Star space) Eol) xs else [])"
    by (simp add: ms_star_space [of "x # xs"])
  with Cons show ?case by simp
qed

lemma ms_trailingComma:
  "ms trailingComma s =
     (case s of [] \<Rightarrow> [] | x # xs \<Rightarrow> if x = CHR '','' \<and> list_all is_space xs then [[]] else [])"
proof -
  have "ms trailingComma s = concat (map (ms (Seq (Star space) Eol)) (ms (chr CHR '','') s))"
    by (simp only: trailingComma_def seqs.simps ms.simps(3))
  then show ?thesis
  proof (cases s)
    case Nil
    then show ?thesis by (simp add: trailingComma_def chr_def)
  next
    case (Cons x xs)
    assume "ms trailingComma s = concat (map (ms (Seq (Star space) Eol)) (ms (chr CHR '','') s))"
    then have "ms trailingComma (x # xs) = (if x = CHR '','' then ms (Seq (Star space) Eol) xs else [])"
      unfolding Cons ms_chr by simp
    then show ?thesis
      unfolding Cons ms_star_space_eol by simp
  qed
qed

lemma replace_trailingComma_Nil: "replace_first trailingComma [] [] = []"
  by (simp add: replace_first_def ms_trailingComma)

lemma replace_trailingComma_Cons:
  "replace_first trailingComma [] (x # xs) =
     (if x = CHR '','' \<and> list_all is_space xs then [] else x # replace_first trailingComma [] xs)"
  by (auto simp: replace_first_def ms_trailingComma split: option.splits)

lemma comma_not_space: "\<not> is_space CHR '',''"
  by (simp add: is_space_def)

lemma replace_trailingComma_spaces:
  "list_all is_space xs \<Longrightarrow> replace_first trailingComma [] xs = xs"
  by (induction xs) (auto simp: replace_trailingComma_Nil replace_trailingComma_Cons comma_not_space)










section \<open>Claims about the truncation repair\<close>

text \<open>
  C10. Repair never fabricates data: for every text \<open>s\<close>, \<open>repairTruncatedJson s\<close> is a
  prefix \<open>p\<close> of \<open>s\<close> (what is left of \<open>s\<close> after the cut and after a trailing comma and
  its white space are removed) followed by a text \<open>t\<close> made of closing quotes, brackets
  and braces only.
\<close>

theorem repair_never_fabricates:
  \<open>\<exists>p t. repairTruncatedJson s = p @ t \<and> prefix p s \<and> set t \<subseteq> set ''"]}''\<close>
proof -
  define r1 where "r1 = (case match1 Eps lastComplete_grp lastComplete_rest s of Some g \<Rightarrow> g | None \<Rightarrow> s)"
  define r2 where "r2 = replace_first trailingComma [] r1"
  have "prefix r1 s"
    by (auto simp: r1_def dest: lastComplete_prefix split: option.splits)
  moreover have "prefix r2 r1"
    unfolding r2_def by (rule replace_trailingComma_prefix)
  ultimately have p: "prefix r2 s" by (rule prefix_order.trans [rotated])
  define q where \<open>q = (if count_matches CHR ''"'' r2 mod 2 \<noteq> 0 then ''"'' else [])\<close>
  define k where \<open>k = count_matches CHR ''['' (r2 @ q) - count_matches CHR '']'' (r2 @ q)\<close>
  define m where \<open>m = count_matches CHR ''{'' (r2 @ q @ replicate k CHR '']'')
                     - count_matches CHR ''}'' (r2 @ q @ replicate k CHR '']'')\<close>
  have eq: \<open>repairTruncatedJson s = r2 @ (q @ replicate k CHR '']'' @ replicate m CHR ''}'')\<close>
    unfolding repairTruncatedJson_def Let_def r1_def [symmetric] r2_def [symmetric]
    by (simp add: q_def k_def m_def)
  have \<open>set (q @ replicate k CHR '']'' @ replicate m CHR ''}'') \<subseteq> set ''"]}''\<close>
    by (auto simp: q_def)
  with p eq show ?thesis by blast
qed

theorem repair_never_fabricates_witness:
  \<open>(\<exists>p t. repairTruncatedJson ''{"a":"x", "b":[1, 2, '' = p @ t
          \<and> prefix p ''{"a":"x", "b":[1, 2, '' \<and> set t \<subseteq> set ''"]}'')
   \<and> repairTruncatedJson ''{"a":"x", "b":[1, 2, '' = ''{"a":"x", "b":[1, 2]}''\<close>
proof
  show \<open>\<exists>p t. repairTruncatedJson ''{"a":"x", "b":[1, 2, '' = p @ t
          \<and> prefix p ''{"a":"x", "b":[1, 2, '' \<and> set t \<subseteq> set ''"]}''\<close>
    by (rule repair_never_fabricates)
  show \<open>repairTruncatedJson ''{"a":"x", "b":[1, 2, '' = ''{"a":"x", "b":[1, 2]}''\<close>
    by code_simp
qed



section \<open>Facts about validation\<close>

lemma those_Some_map: "those ys = Some xs \<Longrightarrow> ys = map Some xs"
  by (induction ys arbitrary: xs) (auto split: option.splits)

lemma array_field_length: "array_field v = Some xs \<Longrightarrow> length xs \<le> 5"
proof -
  assume a: "array_field v = Some xs"
  show ?thesis
  proof (cases v)
    case (Arr ys)
    with a have "map String_js (take 5 ys) = map Some xs"
      by (auto simp: array_field_def dest: those_Some_map)
    then have "length (take 5 ys) = length xs"
      by (metis length_map)
    then show ?thesis by simp
  qed (use a in \<open>auto simp: array_field_def\<close>)
qed

lemma array_field_Arr:
  "array_field (Arr ys) = Some xs \<Longrightarrow> map Some xs = map String_js (take 5 ys)"
  by (auto simp: array_field_def dest: those_Some_map)

lemma array_field_not_Arr: "array_field v = Some xs \<Longrightarrow> \<forall>ys. v \<noteq> Arr ys \<Longrightarrow> xs = []"
  by (cases v) (auto simp: array_field_def)

lemma String_js_map_Str: "those (map String_js (map Str xs)) = Some xs"
  by (induction xs) auto

lemma array_field_strings: "length xs \<le> 5 \<Longrightarrow> array_field (Arr (map Str xs)) = Some xs"
  using String_js_map_Str [of xs] by (simp add: array_field_def del: map_map)

lemma validate_SomeD:
  assumes "validateAndNormalize parsed repoInfo = Some r"
  obtains pn ds ts fs ss rd where
    "get parsed ''projectName'' = Some pn"
    "get parsed ''description'' = Some ds"
    "get parsed ''techStack'' = Some ts"
    "get parsed ''features'' = Some fs"
    "get parsed ''structure'' = Some ss"
    "get parsed ''readme'' = Some rd"
    "String_js (js_or pn (Str (or_str (repo_name repoInfo) (or_str (repo_path repoInfo) ''Unknown''))))
       = Some (projectName r)"
    "String_js (js_or ds (Str (or_str (repo_description repoInfo) ''A software project.'')))
       = Some (description r)"
    "array_field ts = Some (techStack r)"
    "array_field fs = Some (features r)"
    "array_field ss = Some (structure r)"
    "(if truthy rd then String_js rd
      else do {
        h \<leftarrow> String_js (js_or pn (of_str (repo_name repoInfo)));
        d \<leftarrow> String_js (js_or ds (Str []));
        Some (''# '' @ h @ [CHR 0x0A, CHR 0x0A] @ d)
      }) = Some (readme r)"
  using assms unfolding validateAndNormalize_def
  by (auto simp: bind_eq_Some_conv)

section \<open>Claims about validation and defaulting\<close>

text \<open>
  C3, as the code has it. For every parsed value and context on which validation returns,
  each array field (\<open>techStack\<close>, \<open>features\<close>, \<open>structure\<close>) of the output has at most five
  elements, which are the first five elements of the parsed array, in order, each made a
  string; and the string fields are not cut: a non-empty string \<open>description\<close> or \<open>readme\<close>
  of the parsed object is returned whole, whatever its length.
\<close>

theorem validate_bounds:
  assumes "validateAndNormalize parsed repoInfo = Some r"
  shows "length (techStack r) \<le> 5 \<and> length (features r) \<le> 5 \<and> length (structure r) \<le> 5
    \<and> (\<forall>xs. get parsed ''techStack'' = Some (Arr xs) \<longrightarrow>
           map Some (techStack r) = map String_js (take 5 xs))
    \<and> (\<forall>xs. get parsed ''features'' = Some (Arr xs) \<longrightarrow>
           map Some (features r) = map String_js (take 5 xs))
    \<and> (\<forall>xs. get parsed ''structure'' = Some (Arr xs) \<longrightarrow>
           map Some (structure r) = map String_js (take 5 xs))
    \<and> (\<forall>s. s \<noteq> [] \<and> get parsed ''description'' = Some (Str s) \<longrightarrow> description r = s)
    \<and> (\<forall>s. s \<noteq> [] \<and> get parsed ''readme'' = Some (Str s) \<longrightarrow> readme r = s)"
proof -
  from assms obtain pn ds ts fs ss rd where g:
    "get parsed ''description'' = Some ds"
    "get parsed ''techStack'' = Some ts"
    "get parsed ''features'' = Some fs"
    "get parsed ''structure'' = Some ss"
    "get parsed ''readme'' = Some rd"
    and d: "String_js (js_or ds (Str (or_str (repo_description repoInfo) ''A software project.'')))
              = Some (description r)"
    and a: "array_field ts = Some (techStack r)" "array_field fs = Some (features r)"
      "array_field ss = Some (structure r)"
    and rd: "(if truthy rd then String_js rd
      else do {
        h \<leftarrow> String_js (js_or pn (of_str (repo_name repoInfo)));
        d \<leftarrow> String_js (js_or ds (Str []));
        Some (''# '' @ h @ [CHR 0x0A, CHR 0x0A] @ d)
      }) = Some (readme r)"
    by (rule validate_SomeD)
  have "length (techStack r) \<le> 5" "length (features r) \<le> 5" "length (structure r) \<le> 5"
    using a by (auto dest: array_field_length)
  moreover have "\<forall>xs. get parsed ''techStack'' = Some (Arr xs) \<longrightarrow>
      map Some (techStack r) = map String_js (take 5 xs)"
    using g a by (auto dest: array_field_Arr)
  moreover have "\<forall>xs. get parsed ''features'' = Some (Arr xs) \<longrightarrow>
      map Some (features r) = map String_js (take 5 xs)"
    using g a by (auto dest: array_field_Arr)
  moreover have "\<forall>xs. get parsed ''structure'' = Some (Arr xs) \<longrightarrow>
      map Some (structure r) = map String_js (take 5 xs)"
    using g a by (auto dest: array_field_Arr)
  moreover have "\<forall>s. s \<noteq> [] \<and> get parsed ''description'' = Some (Str s) \<longrightarrow> description r = s"
    using g d by (auto simp: js_or_def)
  moreover have "\<forall>s. s \<noteq> [] \<and> get parsed ''readme'' = Some (Str s) \<longrightarrow> readme r = s"
    using g rd by auto
  ultimately show ?thesis by blast
qed

theorem validate_bounds_witness:
  "validateAndNormalize eight_elements repo_ts =
     Some \<lparr>projectName = ''repo'', description = ''A software project.'',
           techStack = [''a'', ''b'', ''c'', ''d'', ''e''], features = [], structure = [],
           readme = ''# repo'' @ [CHR 0x0A, CHR 0x0A]\<rparr>
   \<and> length [''a'', ''b'', ''c'', ''d'', ''e''] \<le> (5 :: nat)"
proof -
  have e: "validateAndNormalize eight_elements repo_ts =
     Some \<lparr>projectName = ''repo'', description = ''A software project.'',
           techStack = [''a'', ''b'', ''c'', ''d'', ''e''], features = [], structure = [],
           readme = ''# repo'' @ [CHR 0x0A, CHR 0x0A]\<rparr>"
    by code_simp
  from validate_bounds [OF e] e show ?thesis by simp
qed

text \<open>
  Against C3 as stated: the description of 101 characters and the readme of 801 characters
  come out with 101 and 801 characters.
\<close>

theorem strings_not_truncated_counterexample:
  "map_option (\<lambda>r. (length (description r), length (readme r)))
     (validateAndNormalize long_fields repo_ts) = Some (101, 801)"
  by (simp add: validateAndNormalize_def long_fields_def repo_ts_def js_or_def array_field_def)

text \<open>
  C6, as the code has it. For every parsed value and context on which validation returns:
  \<open>projectName\<close> is the parsed one made a string when that is truthy, and otherwise the
  context's name, else its path, else \<open>Unknown\<close>; \<open>description\<close> is the parsed one made a
  string when truthy, and otherwise the context's description, else \<open>A software project.\<close>;
  \<open>readme\<close> is the parsed one made a string when truthy, and otherwise a heading made of
  the project name (parsed, else the context's) and the parsed description; \<open>features\<close> and
  \<open>structure\<close> that are absent or not arrays are empty.
\<close>

theorem validate_defaults:
  assumes "validateAndNormalize parsed repoInfo = Some r"
  shows "(\<forall>v. get parsed ''projectName'' = Some v \<longrightarrow>
            (if truthy v then String_js v = Some (projectName r)
             else projectName r = or_str (repo_name repoInfo) (or_str (repo_path repoInfo) ''Unknown'')))
    \<and> (\<forall>v. get parsed ''description'' = Some v \<longrightarrow>
            (if truthy v then String_js v = Some (description r)
             else description r = or_str (repo_description repoInfo) ''A software project.''))
    \<and> (\<forall>pn ds v. get parsed ''projectName'' = Some pn \<and> get parsed ''description'' = Some ds
            \<and> get parsed ''readme'' = Some v \<longrightarrow>
            (if truthy v then String_js v = Some (readme r)
             else do {
                    h \<leftarrow> String_js (js_or pn (of_str (repo_name repoInfo)));
                    d \<leftarrow> String_js (js_or ds (Str []));
                    Some (''# '' @ h @ [CHR 0x0A, CHR 0x0A] @ d)
                  } = Some (readme r)))
    \<and> (\<forall>v. get parsed ''features'' = Some v \<and> (\<forall>xs. v \<noteq> Arr xs) \<longrightarrow> features r = [])
    \<and> (\<forall>v. get parsed ''structure'' = Some v \<and> (\<forall>xs. v \<noteq> Arr xs) \<longrightarrow> structure r = [])"
proof -
  from assms obtain pn ds ts fs ss rd where g:
    "get parsed ''projectName'' = Some pn"
    "get parsed ''description'' = Some ds"
    "get parsed ''features'' = Some fs"
    "get parsed ''structure'' = Some ss"
    "get parsed ''readme'' = Some rd"
    and p: "String_js (js_or pn (Str (or_str (repo_name repoInfo) (or_str (repo_path repoInfo) ''Unknown''))))
              = Some (projectName r)"
    and d: "String_js (js_or ds (Str (or_str (repo_description repoInfo) ''A software project.'')))
              = Some (description r)"
    and a: "array_field fs = Some (features r)" "array_field ss = Some (structure r)"
    and rd: "(if truthy rd then String_js rd
      else do {
        h \<leftarrow> String_js (js_or pn (of_str (repo_name repoInfo)));
        d \<leftarrow> String_js (js_or ds (Str []));
        Some (''# '' @ h @ [CHR 0x0A, CHR 0x0A] @ d)
      }) = Some (readme r)"
    by (rule validate_SomeD)
  have "\<forall>v. get parsed ''projectName'' = Some v \<longrightarrow>
            (if truthy v then String_js v = Some (projectName r)
             else projectName r = or_str (repo_name repoInfo) (or_str (repo_path repoInfo) ''Unknown''))"
    using g p by (auto simp: js_or_def)
  moreover have "\<forall>v. get parsed ''description'' = Some v \<longrightarrow>
            (if truthy v then String_js v = Some (description r)
             else description r = or_str (repo_description repoInfo) ''A software project.'')"
    using g d by (auto simp: js_or_def)
  moreover have "\<forall>pn ds v. get parsed ''projectName'' = Some pn \<and> get parsed ''description'' = Some ds
            \<and> get parsed ''readme'' = Some v \<longrightarrow>
            (if truthy v then String_js v = Some (readme r)
             else do {
                    h \<leftarrow> String_js (js_or pn (of_str (repo_name repoInfo)));
                    d \<leftarrow> String_js (js_or ds (Str []));
                    Some (''# '' @ h @ [CHR 0x0A, CHR 0x0A] @ d)
                  } = Some (readme r))"
    using g rd by auto
  moreover have "\<forall>v. get parsed ''features'' = Some v \<and> (\<forall>xs. v \<noteq> Arr xs) \<longrightarrow> features r = []"
    using g a by (auto dest: array_field_not_Arr)
  moreover have "\<forall>v. get parsed ''structure'' = Some v \<and> (\<forall>xs. v \<noteq> Arr xs) \<longrightarrow> structure r = []"
    using g a by (auto dest: array_field_not_Arr)
  ultimately show ?thesis by blast
qed

theorem validate_defaults_witness:
  "validateAndNormalize (Obj [(''description'', Str ''Bar'')]) repo_ts =
     Some \<lparr>projectName = ''repo'', description = ''Bar'', techStack = [], features = [],
           structure = [], readme = ''# repo'' @ [CHR 0x0A, CHR 0x0A] @ ''Bar''\<rparr>
   \<and> get (Obj [(''description'', Str ''Bar'')]) ''projectName'' = Some Undefined
   \<and> or_str (repo_name repo_ts) (or_str (repo_path repo_ts) ''Unknown'') = ''repo''"
proof -
  have e: "validateAndNormalize (Obj [(''description'', Str ''Bar'')]) repo_ts =
     Some \<lparr>projectName = ''repo'', description = ''Bar'', techStack = [], features = [],
           structure = [], readme = ''# repo'' @ [CHR 0x0A, CHR 0x0A] @ ''Bar''\<rparr>"
    by code_simp
  from validate_defaults [OF e] e show ?thesis
    by (simp add: repo_ts_def or_str_def)
qed

text \<open>
  Against C6 as stated: the parsed object has no \<open>techStack\<close> and the context has a
  language, yet validation returns an empty \<open>techStack\<close>. The top of the histogram is what
  the regex extraction falls back on, not the validation.
\<close>

theorem techStack_not_defaulted_counterexample:
  "map_option techStack (validateAndNormalize (Obj []) repo_ts) = Some []
   \<and> map_option (take 4 \<circ> map fst) (repo_languages repo_ts) = Some [''TypeScript'']
   \<and> techStack (extractPartialData [] repo_ts) = [''TypeScript'']"
  by code_simp

text \<open>
  C8, as the code has it. Validation leaves unchanged every result object whose
  \<open>projectName\<close>, \<open>description\<close> and \<open>readme\<close> are not empty and whose arrays hold at most
  five strings, whatever the context.
\<close>

theorem validate_idempotent_on_populated:
  assumes "projectName r \<noteq> []" and "description r \<noteq> []" and "readme r \<noteq> []"
    and "length (techStack r) \<le> 5" and "length (features r) \<le> 5" and "length (structure r) \<le> 5"
  shows "validateAndNormalize (result_value r) repoInfo = Some r"
  using assms
  by (simp add: validateAndNormalize_def result_value_def js_or_def array_field_strings)

theorem validate_idempotent_on_populated_witness:
  "validateAndNormalize
     (result_value \<lparr>projectName = ''Foo'', description = ''A tool'', techStack = [''TS''],
                    features = [], structure = [], readme = ''# Foo''\<rparr>) repo_ts =
     Some \<lparr>projectName = ''Foo'', description = ''A tool'', techStack = [''TS''],
           features = [], structure = [], readme = ''# Foo''\<rparr>"
  using validate_idempotent_on_populated
    [of "\<lparr>projectName = ''Foo'', description = ''A tool'', techStack = [''TS''],
          features = [], structure = [], readme = ''# Foo''\<rparr>" repo_ts]
  by simp

text \<open>
  Against C8 as stated: a parsed \<open>projectName\<close> that is an empty array is truthy and is
  made the empty string; the result is in the image of the validation, and validating it
  again replaces the empty string by the context's name.
\<close>

theorem validate_not_idempotent_counterexample:
  "validateAndNormalize (Obj [(''projectName'', Arr [])]) repo_ts =
     Some \<lparr>projectName = [], description = ''A software project.'', techStack = [], features = [],
           structure = [], readme = ''# '' @ [CHR 0x0A, CHR 0x0A]\<rparr>
   \<and> validateAndNormalize
        (result_value \<lparr>projectName = [], description = ''A software project.'', techStack = [],
           features = [], structure = [], readme = ''# '' @ [CHR 0x0A, CHR 0x0A]\<rparr>) repo_ts =
     Some \<lparr>projectName = ''repo'', description = ''A software project.'', techStack = [], features = [],
           structure = [], readme = ''# '' @ [CHR 0x0A, CHR 0x0A]\<rparr>"
  by code_simp

section \<open>Facts about the fence and the boundaries\<close>

lemma concat_map_Eps: "concat (map (ms Eps) xs) = xs"
  by (induction xs) auto

lemma ms_seqs_Cons: "ms (seqs (r # rs)) s = concat (map (ms (seqs rs)) (ms r s))"
proof (cases rs)
  case Nil
  then show ?thesis by (simp add: concat_map_Eps)
next
  case (Cons a as)
  then show ?thesis by simp
qed

lemma ms_str: "ms (str w) s = (if prefix w s then [drop (length w) s] else [])"
proof (induction w arbitrary: s)
  case Nil
  then show ?case by (simp add: str_def)
next
  case (Cons c w)
  have "ms (str (c # w)) s = concat (map (ms (str w)) (ms (chr c) s))"
    unfolding str_def list.map ms_seqs_Cons ..
  then show ?case
    by (cases s) (simp_all add: Cons ms_chr)
qed

lemma match1_exec:
  "match1 P G S s = Some g \<Longrightarrow> \<exists>a rest. s = a @ rest \<and> exec_grp P G S rest = Some g"
proof (induction s)
  case Nil
  then show ?case by simp
next
  case (Cons c cs)
  show ?case
  proof (cases "exec_grp P G S (c # cs)")
    case None
    with Cons.prems have "match1 P G S cs = Some g" by simp
    then obtain a rest where "cs = a @ rest" "exec_grp P G S rest = Some g"
      using Cons.IH by blast
    then have "c # cs = (c # a) @ rest \<and> exec_grp P G S rest = Some g" by simp
    then show ?thesis by blast
  next
    case (Some g')
    with Cons.prems have "exec_grp P G S (c # cs) = Some g" by simp
    then have "c # cs = [] @ (c # cs) \<and> exec_grp P G S (c # cs) = Some g" by simp
    then show ?thesis by blast
  qed
qed

lemma exec_grp_SomeD:
  assumes "exec_grp P G S s = Some g"
  shows "\<exists>r1 \<in> set (ms P s). \<exists>r2 \<in> set (ms G r1). ms S r2 \<noteq> []"
proof -
  from assms obtain r1 where r1: "r1 \<in> set (ms P s)"
    and "first_some (\<lambda>r2. case ms S r2 of [] \<Rightarrow> None
                          | r3 # _ \<Rightarrow> Some (take (length r1 - length r2) r1)) (ms G r1) = Some g"
    unfolding exec_grp_def by (blast dest: first_some_SomeD)
  then obtain r2 where "r2 \<in> set (ms G r1)"
    and "(case ms S r2 of [] \<Rightarrow> None | r3 # _ \<Rightarrow> Some (take (length r1 - length r2) r1)) = Some g"
    by (blast dest: first_some_SomeD)
  then have "r2 \<in> set (ms G r1) \<and> ms S r2 \<noteq> []" by (auto split: list.splits)
  with r1 show ?thesis by blast
qed

lemma fence_open_D:
  assumes "r1 \<in> set (ms fence_open s)"
  shows "\<exists>u. s = ''```'' @ u @ r1"
proof -
  obtain X where X: "fence_open = Seq (str ''```'') X"
    by (simp add: fence_open_def)
  from assms obtain y where y: "y \<in> set (ms (str ''```'') s)" and r: "r1 \<in> set (ms X y)"
    unfolding X ms_Seq_iff by blast
  from y have "s = ''```'' @ y"
    unfolding ms_str by (auto split: if_splits simp: prefix_def)
  moreover from r have "suffix r1 y" by (rule ms_suffix)
  ultimately show ?thesis by (auto simp: suffix_def)
qed

text \<open>The fence pattern matches only a text that holds the fence mark twice.\<close>

lemma fence_no_match:
  assumes "\<not> (\<exists>a b c. s = a @ ''```'' @ b @ ''```'' @ c)"
  shows "match1 fence_open fence_body fence_close s = None"
proof (rule ccontr)
  assume "match1 fence_open fence_body fence_close s \<noteq> None"
  then obtain g where "match1 fence_open fence_body fence_close s = Some g" by blast
  then obtain a rest where s: "s = a @ rest"
    and "exec_grp fence_open fence_body fence_close rest = Some g"
    by (blast dest: match1_exec)
  then obtain r1 r2 where r1: "r1 \<in> set (ms fence_open rest)" and r2: "r2 \<in> set (ms fence_body r1)"
    and r3: "ms fence_close r2 \<noteq> []"
    by (blast dest: exec_grp_SomeD)
  from r1 obtain u where u: "rest = ''```'' @ u @ r1" by (blast dest: fence_open_D)
  from r2 have "suffix r2 r1" by (rule ms_suffix)
  then obtain v where v: "r1 = v @ r2" by (auto simp: suffix_def)
  from r3 have "prefix ''```'' r2"
    unfolding fence_close_def ms_str by (auto split: if_splits)
  then obtain c where c: "r2 = ''```'' @ c" by (auto simp: prefix_def)
  have "s = a @ ''```'' @ (u @ v) @ ''```'' @ c"
    unfolding s u v c by simp
  with assms show False by blast
qed

lemma no_backtick_no_fence:
  assumes "CHR ''`'' \<notin> set s"
  shows "\<not> (\<exists>a b c. s = a @ ''```'' @ b @ ''```'' @ c)"
  using assms by auto

lemma lastIndexOf_snoc: "lastIndexOf (xs @ [c]) c = int (length xs)"
  by (induction xs) (auto simp: Let_def)

lemma boundaries_object_text:
  assumes "match1 fence_open fence_body fence_close (trim content) = None"
    and "trim content = CHR ''{'' # mid @ [CHR ''}'']"
  shows "boundaries content = trim content"
proof -
  have l: "lastIndexOf (CHR ''{'' # mid @ [CHR ''}'']) CHR ''}'' = int (length mid) + 1"
    using lastIndexOf_snoc [of "CHR ''{'' # mid" "CHR ''}''"] by simp
  show ?thesis
    unfolding boundaries_def Let_def assms(1) option.case
    unfolding assms(2) l
    by (simp add: substring_def Let_def)
qed

section \<open>Claims about the funnel\<close>

text \<open>
  C1. The normalizer of the indexer is total: for every non-empty completion, whatever
  \<open>JSON.parse\<close> makes of it and whatever the context, the funnel returns a result object,
  which has all six fields, and throws nothing. The result is that of the direct parse, or
  that of the parse after repair, or that of the regex extraction.
\<close>

theorem normalizer_total:
  assumes "content \<noteq> []"
  shows "\<exists>r. analyzeWithAI parse repoInfo content = Inr r
     \<and> (do { parsed \<leftarrow> parse (boundaries content); validateAndNormalize parsed repoInfo } = Some r
        \<or> do { parsed \<leftarrow> parse (repairTruncatedJson (boundaries content));
                validateAndNormalize parsed repoInfo } = Some r
        \<or> r = extractPartialData (boundaries content) repoInfo)"
  using assms unfolding analyzeWithAI_def Let_def
  by (auto split: option.splits)

theorem normalizer_total_witness:
  "''null'' \<noteq> []
   \<and> (\<exists>r. analyzeWithAI JSON_parse repo_ts ''null'' = Inr r
        \<and> (do { parsed \<leftarrow> JSON_parse (boundaries ''null''); validateAndNormalize parsed repo_ts } = Some r
           \<or> do { parsed \<leftarrow> JSON_parse (repairTruncatedJson (boundaries ''null''));
                   validateAndNormalize parsed repo_ts } = Some r
           \<or> r = extractPartialData (boundaries ''null'') repo_ts))
   \<and> JSON_parse (boundaries ''null'') = Some Null
   \<and> validateAndNormalize Null repo_ts = None"
proof (intro conjI)
  show n: "''null'' \<noteq> []" by simp
  show "\<exists>r. analyzeWithAI JSON_parse repo_ts ''null'' = Inr r
        \<and> (do { parsed \<leftarrow> JSON_parse (boundaries ''null''); validateAndNormalize parsed repo_ts } = Some r
           \<or> do { parsed \<leftarrow> JSON_parse (repairTruncatedJson (boundaries ''null''));
                   validateAndNormalize parsed repo_ts } = Some r
           \<or> r = extractPartialData (boundaries ''null'') repo_ts)"
    using n by (rule normalizer_total)
  show "JSON_parse (boundaries ''null'') = Some Null" by code_simp
  show "validateAndNormalize Null repo_ts = None" by code_simp
qed

text \<open>
  C2, as the code has it. The normalizer of the review applies the boundary step and the
  direct parse only: for every non-empty completion it returns the parsed value, as it is,
  when the bounded text parses, and otherwise throws the error \<open>AI returned invalid JSON
  response. Please try again.\<close>
\<close>

theorem review_parses_or_throws:
  assumes "content \<noteq> []"
  shows "(\<forall>v. parse (review_boundaries content) = Some v \<longrightarrow> analyzeCodeWithAI parse content = Inr v)
     \<and> (parse (review_boundaries content) = None \<longrightarrow>
          analyzeCodeWithAI parse content =
            Inl (Error ''AI returned invalid JSON response. Please try again.''))"
  using assms by (simp add: analyzeCodeWithAI_def)

theorem review_parses_or_throws_witness:
  \<open>fenced_review \<noteq> []
   \<and> review_boundaries fenced_review = ''{"status":"passed","issues":[],"summary":"ok"}''
   \<and> analyzeCodeWithAI JSON_parse fenced_review =
       Inr (Obj [(''status'', Str ''passed''), (''issues'', Arr []), (''summary'', Str ''ok'')])\<close>
proof -
  have n: "fenced_review \<noteq> []" by (simp add: fenced_review_def)
  have b: \<open>review_boundaries fenced_review = ''{"status":"passed","issues":[],"summary":"ok"}''\<close>
    by code_simp
  have p: \<open>JSON_parse (review_boundaries fenced_review) =
      Some (Obj [(''status'', Str ''passed''), (''issues'', Arr []), (''summary'', Str ''ok'')])\<close>
    by code_simp
  from review_parses_or_throws [OF n, of JSON_parse] p n b show ?thesis by simp
qed

text \<open>
  Against C2 as stated: a review completion cut short inside a string is not repaired; the
  parse failure comes out as the error.
\<close>

theorem review_propagates_counterexample:
  "analyzeCodeWithAI JSON_parse truncated_review =
     Inl (Error ''AI returned invalid JSON response. Please try again.'')"
  by code_simp

text \<open>
  C5, as the code has it. For every completion that holds no fenced block (the fence mark
  does not occur twice), whose trimmed text runs from \<open>{\<close> to \<open>}\<close> and parses to an object
  with the six fields, the strings non-empty and the arrays of at most five strings, the
  direct parse is given that text and the output of the validation has exactly the parsed
  values, empty arrays included, as in Scenario A.
\<close>

theorem round_trip:
  assumes "content \<noteq> []"
    and "\<not> (\<exists>a b c. trim content = a @ ''```'' @ b @ ''```'' @ c)"
    and "trim content = CHR ''{'' # mid @ [CHR ''}'']"
    and "parse (trim content) = Some (Obj kvs)"
    and "map_of kvs ''projectName'' = Some (Str pn)" and "pn \<noteq> []"
    and "map_of kvs ''description'' = Some (Str ds)" and "ds \<noteq> []"
    and "map_of kvs ''techStack'' = Some (Arr (map Str ts))" and "length ts \<le> 5"
    and "map_of kvs ''features'' = Some (Arr (map Str fs))" and "length fs \<le> 5"
    and "map_of kvs ''structure'' = Some (Arr (map Str ss))" and "length ss \<le> 5"
    and "map_of kvs ''readme'' = Some (Str rd)" and "rd \<noteq> []"
  shows "parse (boundaries content) = Some (Obj kvs)
     \<and> analyzeWithAI parse repoInfo content =
         Inr \<lparr>projectName = pn, description = ds, techStack = ts, features = fs, structure = ss,
              readme = rd\<rparr>"
proof -
  have b: "boundaries content = trim content"
    using assms(2,3) by (intro boundaries_object_text fence_no_match)
  have v: "validateAndNormalize (Obj kvs) repoInfo =
     Some \<lparr>projectName = pn, description = ds, techStack = ts, features = fs, structure = ss,
           readme = rd\<rparr>"
    using assms(5-16) by (simp add: validateAndNormalize_def js_or_def array_field_strings)
  show ?thesis
    unfolding analyzeWithAI_def Let_def b using assms(1,4) v by simp
qed

theorem round_trip_witness:
  "analyzeWithAI JSON_parse repo_ts scenarioA =
     Inr \<lparr>projectName = ''Foo'', description = ''A tool'', techStack = [''TS''], features = [],
          structure = [], readme = ''# Foo''\<rparr>"
proof -
  have n: "scenarioA \<noteq> []" by (simp add: scenarioA_def)
  have t: "trim scenarioA = scenarioA" by code_simp
  have "CHR ''`'' \<notin> set scenarioA" by (simp add: scenarioA_def)
  then have f: "\<not> (\<exists>a b c. trim scenarioA = a @ ''```'' @ b @ ''```'' @ c)"
    unfolding t by (rule no_backtick_no_fence)
  have m: \<open>trim scenarioA = CHR ''{'' # ''"projectName":"Foo","description":"A tool","techStack":["TS"],"features":[],"structure":[],"readme":"# Foo"'' @ [CHR ''}'']\<close>
    unfolding t by (simp add: scenarioA_def)
  have p: "JSON_parse (trim scenarioA) =
     Some (Obj [(''projectName'', Str ''Foo''), (''description'', Str ''A tool''),
                (''techStack'', Arr (map Str [''TS''])), (''features'', Arr (map Str [])),
                (''structure'', Arr (map Str [])), (''readme'', Str ''# Foo'')])"
    unfolding t by code_simp
  from round_trip [where content = scenarioA and parse = JSON_parse and repoInfo = repo_ts
      and pn = "''Foo''" and ds = "''A tool''" and ts = "[''TS'']" and fs = "[]" and ss = "[]"
      and rd = "''# Foo''", OF n f m p]
  show ?thesis by simp
qed

text \<open>
  Against C5 as stated: Scenario A with a feature that quotes a fenced block. The text is
  JSON and matches the schema, yet the boundary step keeps the inside of the block only, no
  parse succeeds, and every field of the output is a default.
\<close>

theorem round_trip_fence_counterexample:
  \<open>JSON_parse fenced_feature =
     Some (Obj [(''projectName'', Str ''Foo''), (''description'', Str ''A tool''),
                (''techStack'', Arr [Str ''TS'']), (''features'', Arr [Str ''```md``` blocks'']),
                (''structure'', Arr []), (''readme'', Str ''# Foo'')])
   \<and> boundaries fenced_feature = ''md''
   \<and> analyzeWithAI JSON_parse repo_ts fenced_feature =
       Inr \<lparr>projectName = ''repo'', description = ''Repository analysis completed.'',
            techStack = [''TypeScript''], features = [], structure = [],
            readme = ''# repo'' @ [CHR 0x0A, CHR 0x0A] @ ''A software project.''\<rparr>\<close>
  by code_simp

section \<open>Scenario D\<close>

lemma D_boundaries: "boundaries scenarioD = scenarioD"
  by code_simp

lemma D_no_brace: "indexOf scenarioD CHR ''{'' = -1"
  by code_simp

lemma D_parse: "JSON_parse scenarioD = None"
  by code_simp

lemma D_repair: "repairTruncatedJson scenarioD = scenarioD"
  by code_simp

lemma D_name:
  \<open>match1 (seqs (key_colon ''projectName'' @ [chr CHR ''"''])) (plus (notc ''"'')) (chr CHR ''"'')
     scenarioD = None\<close>
  by code_simp

lemma D_description:
  \<open>match1 (seqs (key_colon ''description'' @ [chr CHR ''"''])) (plus (notc ''"'')) (chr CHR ''"'')
     scenarioD = None\<close>
  by code_simp

lemma D_readme:
  \<open>match1 (seqs (key_colon ''readme'' @ [chr CHR ''"'']))
      (Star (Alt (notc [CHR ''"'', CHR 0x5C]) (Seq (chr CHR 0x5C) dot))) (chr CHR ''"'')
      scenarioD = None\<close>
  by code_simp

lemma D_arrays:
  "extractArray scenarioD ''techStack'' = []"
  "extractArray scenarioD ''features'' = []"
  "extractArray scenarioD ''structure'' = []"
  by code_simp+

lemma D_extract:
  "extractPartialData scenarioD repoInfo =
     \<lparr>projectName = or_str (repo_name repoInfo) (or_str (repo_path repoInfo) ''Unknown Project''),
      description = or_str (repo_description repoInfo) ''Repository analysis completed.'',
      techStack = (case repo_languages repoInfo of
                     Some langs \<Rightarrow> take 4 (map fst langs)
                   | None \<Rightarrow> []),
      features = [],
      structure = [],
      readme = ''# '' @ or_str (repo_name repoInfo) (or_str (repo_path repoInfo) ''Project'')
               @ [CHR 0x0A, CHR 0x0A]
               @ or_str (repo_description repoInfo) ''A software project.''\<rparr>"
  unfolding extractPartialData_def Let_def D_name D_description D_readme D_arrays
  by (simp split: option.splits)

text \<open>
  C7, as the code has it. The text of Scenario D has no \<open>{\<close>; neither parse succeeds and
  the funnel reaches the regex extraction, which recovers nothing from it: the array
  pattern needs \<open>"techStack"\<close> in quotes, a colon and a bracket, which the text has not.
  \<open>techStack\<close> is the first four languages of the context (empty when the context has none),
  and \<open>projectName\<close> and the other fields are the defaults of the context.
\<close>

theorem scenarioD_reaches_extraction:
  "indexOf scenarioD CHR ''{'' = -1
   \<and> JSON_parse (boundaries scenarioD) = None
   \<and> JSON_parse (repairTruncatedJson (boundaries scenarioD)) = None
   \<and> extractArray scenarioD ''techStack'' = []
   \<and> analyzeWithAI JSON_parse repoInfo scenarioD =
       Inr \<lparr>projectName = or_str (repo_name repoInfo) (or_str (repo_path repoInfo) ''Unknown Project''),
            description = or_str (repo_description repoInfo) ''Repository analysis completed.'',
            techStack = (case repo_languages repoInfo of
                           Some langs \<Rightarrow> take 4 (map fst langs)
                         | None \<Rightarrow> []),
            features = [],
            structure = [],
            readme = ''# '' @ or_str (repo_name repoInfo) (or_str (repo_path repoInfo) ''Project'')
                     @ [CHR 0x0A, CHR 0x0A]
                     @ or_str (repo_description repoInfo) ''A software project.''\<rparr>"
proof -
  have "scenarioD \<noteq> []" by (simp add: scenarioD_def)
  then have "analyzeWithAI JSON_parse repoInfo scenarioD = Inr (extractPartialData scenarioD repoInfo)"
    unfolding analyzeWithAI_def Let_def D_boundaries D_repair D_parse by simp
  then show ?thesis
    unfolding D_boundaries D_repair D_extract using D_no_brace D_parse D_arrays(1) by simp
qed

theorem scenarioD_reaches_extraction_witness:
  "analyzeWithAI JSON_parse
     \<lparr>repo_name = None, repo_path = Some ''group/repo'', repo_description = Some ''A tool'',
      repo_languages = None\<rparr> scenarioD =
   Inr \<lparr>projectName = ''group/repo'', description = ''A tool'', techStack = [], features = [],
        structure = [], readme = ''# group/repo'' @ [CHR 0x0A, CHR 0x0A] @ ''A tool''\<rparr>"
  using scenarioD_reaches_extraction
    [of "\<lparr>repo_name = None, repo_path = Some ''group/repo'', repo_description = Some ''A tool'',
          repo_languages = None\<rparr>"]
  by (simp add: or_str_def)

text \<open>
  Against C7 as stated: on Scenario D the array pattern finds no \<open>techStack\<close>, and the
  output's \<open>techStack\<close> is the language of the context, not \<open>TS\<close> and \<open>React\<close>.
\<close>

theorem scenarioD_techStack_counterexample:
  "extractArray scenarioD ''techStack'' = []
   \<and> analyzeWithAI JSON_parse repo_ts scenarioD =
       Inr \<lparr>projectName = ''repo'', description = ''Repository analysis completed.'',
            techStack = [''TypeScript''], features = [], structure = [],
            readme = ''# repo'' @ [CHR 0x0A, CHR 0x0A] @ ''A software project.''\<rparr>"
  by code_simp

section \<open>Claims about the fetchers\<close>

text \<open>What holds of both fetchers: a primary response that is not 2xx is thrown as an error.\<close>

lemma primary_failure_throws:
  assumes "\<not> ok res"
  shows "fetchGitHubRepo parse res treeRes langRes pkgRes =
           Inl (Error (''GitHub API error: '' @ digits (status res) @ '' - '' @ body res))"
    and "fetchGitLabRepo parse res treeRes langRes pkgRes =
           Inl (Error (''GitLab API error: '' @ digits (status res) @ '' - '' @ body res))"
  using assms by (simp_all add: fetchGitHubRepo_def fetchGitLabRepo_def)

text \<open>And secondary responses that are not 2xx leave their fields at the defaults.\<close>

lemma secondary_failure_degrades:
  assumes "ok res" and "parse (body res) = Some d"
    and "\<not> ok treeRes" and "\<not> ok langRes" and "\<not> ok pkgRes"
  shows "fetchGitHubRepo parse res treeRes langRes pkgRes =
           Inr \<lparr>data = d, tree = Arr [], languages = Obj [], packageJson = Null\<rparr>"
    and "fetchGitLabRepo parse res treeRes langRes pkgRes =
           Inr \<lparr>data = d, tree = Arr [], languages = Obj [], packageJson = Null\<rparr>"
  using assms
  by (simp_all add: fetchGitHubRepo_def fetchGitLabRepo_def json_def github_manifest_def
      gitlab_manifest_def)

text \<open>
  C9 at an input where the code departs from it: a repository whose \<open>package.json\<close> is
  not JSON. The GitHub fetcher decodes the manifest and parses it with nothing to catch
  the failure, and the whole fetch throws a SyntaxError; the GitLab fetcher, which parses
  the same text inside \<open>try\<close>, returns the context with \<open>packageJson\<close> null.
\<close>

theorem github_manifest_aborts:
  "atob ''ew=='' = Some ''{''
   \<and> fetchGitHubRepo JSON_parse repo_found not_found not_found github_manifest_broken = Inl SyntaxError
   \<and> fetchGitLabRepo JSON_parse repo_found not_found not_found gitlab_manifest_broken =
       Inr \<lparr>data = Obj [(''name'', Str ''repo'')], tree = Arr [], languages = Obj [],
            packageJson = Null\<rparr>"
  by code_simp


end
